theory Spec2Isabelle
  imports Main
begin

section \<open>Data model\<close>

text \<open>
  The user-service layer of the event manager: \<^verbatim>\<open>app/services/user_service.py\<close>,
  \<^verbatim>\<open>app/utils/auth.py\<close>, \<^verbatim>\<open>app/dependencies.py\<close> and \<^verbatim>\<open>settings/config.py\<close>.
  Identifiers (UUIDs) and timestamps are opaque values; only their equality matters.
\<close>

type_synonym uuid = string
type_synonym datetime = nat

datatype UserRole = ANONYMOUS | AUTHENTICATED | MANAGER | ADMIN

text \<open>
  Modelled from the spec: the \<^verbatim>\<open>User\<close> model (\<^verbatim>\<open>app/models/user_model.py\<close>) is not among the
  sources. The record holds the columns that the service layer reads or writes and the
  flags the spec names; \<^verbatim>\<open>id\<close> is written \<open>user_id\<close>. A column that may be \<^verbatim>\<open>None\<close> is an
  option. The timestamps \<^verbatim>\<open>created_at\<close> and \<^verbatim>\<open>updated_at\<close>, which the store maintains by itself
  at every write, and the profile columns are not part of the record: nothing below is a
  statement about them.
\<close>

record user =
  user_id :: uuid
  nickname :: string
  email :: string
  first_name :: "string option"
  hashed_password :: string
  role :: UserRole
  email_verified :: bool
  is_locked :: bool
  failed_login_attempts :: int
  last_login_at :: "datetime option"
  verification_token :: "string option"

text \<open>\<^verbatim>\<open>Settings\<close> of \<^verbatim>\<open>settings/config.py\<close>, the field the service layer is concerned with.\<close>

record Settings =
  max_login_attempts :: int

definition settings :: Settings where
  "settings = \<lparr>max_login_attempts = 3\<rparr>"

datatype http_exception = HTTPException (status_code: int) (detail: string)

section \<open>The repository\<close>

text \<open>
  A session is the content of the user table, in storage order. A query
  \<^verbatim>\<open>select(User).where(c)\<close> followed by \<^verbatim>\<open>.scalars().first()\<close> is the first row satisfying
  \<open>c\<close>, or \<^verbatim>\<open>None\<close>.
\<close>

type_synonym session = "user list"

definition get_by_email :: "session \<Rightarrow> string \<Rightarrow> user option" where
  "get_by_email s e = find (\<lambda>u. email u = e) s"

definition get_by_id :: "session \<Rightarrow> uuid \<Rightarrow> user option" where
  "get_by_id s i = find (\<lambda>u. user_id u = i) s"

definition get_by_nickname :: "session \<Rightarrow> string \<Rightarrow> user option" where
  "get_by_nickname s n = find (\<lambda>u. nickname u = n) s"

text \<open>
  \<^verbatim>\<open>session.add(user); await session.commit()\<close> on an object loaded from the session writes
  the object's fields to the row with its primary key; on a new object it inserts a row.
\<close>

definition commit_update :: "session \<Rightarrow> user \<Rightarrow> session" where
  "commit_update s u = map (\<lambda>r. if user_id r = user_id u then u else r) s"

definition commit_insert :: "session \<Rightarrow> user \<Rightarrow> session" where
  "commit_insert s u = s @ [u]"

definition count :: "session \<Rightarrow> nat" where
  "count s = length s"

section \<open>Login\<close>

text \<open>
  \<^verbatim>\<open>verify_password\<close> (\<^verbatim>\<open>app/utils/security.py\<close>) is not among the sources and is a parameter
  \<open>vp\<close>: \<open>vp password digest\<close>. \<^verbatim>\<open>UserService.login_user\<close> returns the user or \<^verbatim>\<open>None\<close>,
  together with the session after its commits.
\<close>

definition login_user ::
  "(string \<Rightarrow> string \<Rightarrow> bool) \<Rightarrow> session \<Rightarrow> string \<Rightarrow> string \<Rightarrow> user option \<times> session" where
  "login_user vp s e password =
     (case get_by_email s e of
        None \<Rightarrow> (None, s)
      | Some u \<Rightarrow>
          if vp password (hashed_password u)
          then (let u' = u\<lparr>failed_login_attempts := 0\<rparr>
                in (Some u', commit_update s u'))
          else (let u' = u\<lparr>failed_login_attempts := failed_login_attempts u + 1\<rparr>
                in (None, commit_update s u')))"

definition is_account_locked :: "session \<Rightarrow> string \<Rightarrow> bool" where
  "is_account_locked s e = (case get_by_email s e of None \<Rightarrow> False | Some u \<Rightarrow> is_locked u)"

text \<open>\<^verbatim>\<open>authenticate_user\<close> of \<^verbatim>\<open>app/utils/auth.py\<close>: a lookup and a comparison, no write.\<close>

definition authenticate_user ::
  "(string \<Rightarrow> string \<Rightarrow> bool) \<Rightarrow> session \<Rightarrow> string \<Rightarrow> string \<Rightarrow> user option" where
  "authenticate_user vp s username password =
     (case get_by_email s username of
        None \<Rightarrow> None
      | Some u \<Rightarrow> if vp password (hashed_password u) then Some u else None)"

text \<open>
  The loop of \<^verbatim>\<open>test_account_lock_after_failed_logins\<close>: \<open>n\<close> calls of \<^verbatim>\<open>login_user\<close> with the
  same email and password, each on the session the previous one left.
\<close>

fun login_repeat ::
  "(string \<Rightarrow> string \<Rightarrow> bool) \<Rightarrow> nat \<Rightarrow> session \<Rightarrow> string \<Rightarrow> string \<Rightarrow> session" where
  "login_repeat vp 0 s e password = s"
| "login_repeat vp (Suc n) s e password =
     login_repeat vp n (snd (login_user vp s e password)) e password"

section \<open>Email verification\<close>

text \<open>
  \<^verbatim>\<open>UserService.verify_email_with_token\<close>. The parameter is annotated \<^verbatim>\<open>str\<close>, which Python
  does not enforce; the stored column is nullable. Both are options, \<open>None\<close> being Python's
  \<^verbatim>\<open>None\<close>, and \<^verbatim>\<open>==\<close> is equality of the two values.
\<close>

definition verify_email_with_token :: "session \<Rightarrow> uuid \<Rightarrow> string option \<Rightarrow> bool \<times> session" where
  "verify_email_with_token s i token =
     (case get_by_id s i of
        None \<Rightarrow> (False, s)
      | Some u \<Rightarrow>
          if verification_token u = token
          then (True, commit_update s (u\<lparr>email_verified := True, verification_token := None\<rparr>))
          else (False, s))"

section \<open>Role check\<close>

text \<open>
  \<^verbatim>\<open>require_role\<close> of \<^verbatim>\<open>app/dependencies.py\<close>. The dictionary built by \<^verbatim>\<open>get_current_user\<close>
  has the keys \<^verbatim>\<open>user_id\<close> and \<^verbatim>\<open>role\<close>, both strings taken from the token's claims.
\<close>

record current_user =
  cu_user_id :: string
  cu_role :: string

definition require_role :: "string list \<Rightarrow> current_user \<Rightarrow> http_exception + current_user" where
  "require_role allowed_roles cu =
     (if cu_role cu \<notin> set allowed_roles
      then Inl (HTTPException 403 ''Operation not permitted'')
      else Inr cu)"

section \<open>Registration\<close>

text \<open>
  Modelled from the spec: the schema \<^verbatim>\<open>UserCreate\<close> (\<^verbatim>\<open>app/schemas/user_schemas.py\<close>) is not
  among the sources. Its dump carries an email, a password and the optional columns that
  \<^verbatim>\<open>User(**validated_data)\<close> receives.
\<close>

record user_create =
  uc_email :: string
  uc_password :: string
  uc_nickname :: "string option"
  uc_first_name :: "string option"
  uc_role :: "UserRole option"

text \<open>
  What \<^verbatim>\<open>create\<close> calls and the sources do not contain is a parameter: the validation of
  \<^verbatim>\<open>UserCreate\<close> (\<open>Inl\<close> the text of the validation error), \<^verbatim>\<open>hash_password\<close>, the value
  \<^verbatim>\<open>generate_verification_token()\<close> returns, the value the \<open>n\<close>-th call of
  \<^verbatim>\<open>generate_nickname()\<close> returns, the primary key the new row receives, and
  \<^verbatim>\<open>send_verification_email\<close> (\<open>Some e\<close> when it raises the exception \<open>e\<close>).
\<close>

record env =
  UserCreate :: "(string \<rightharpoonup> string) \<Rightarrow> string + user_create"
  hash_password :: "string \<Rightarrow> string"
  generate_verification_token :: string
  generate_nickname :: "nat \<Rightarrow> string"
  uuid4 :: uuid
  send_verification_email :: "user \<Rightarrow> string option"

datatype log_record = Error string | ErrorTraceback

text \<open>
  The loop \<^verbatim>\<open>while await cls.get_by_nickname(session, new_nickname)\<close>: \<open>n\<close> counts the calls
  of \<^verbatim>\<open>generate_nickname()\<close> made so far, less one. The source has no bound on the loop, so
  the model is a partial function: \<open>None\<close> is a loop that never ends.
\<close>

partial_function (option) nickname_loop :: "(nat \<Rightarrow> string) \<Rightarrow> session \<Rightarrow> nat \<Rightarrow> string option" where
  "nickname_loop gen s n =
     (if get_by_nickname s (gen n) \<noteq> None
      then nickname_loop gen s (Suc n)
      else Some (gen n))"

text \<open>
  \<^verbatim>\<open>UserService.create\<close>: the result or the exception raised, the session and the records
  logged; \<open>None\<close> when the nickname loop does not end.
\<close>

definition create ::
  "env \<Rightarrow> session \<Rightarrow> (string \<rightharpoonup> string)
     \<Rightarrow> ((http_exception + user) \<times> session \<times> log_record list) option" where
  "create ev s user_data =
     (case UserCreate ev user_data of
        Inl err \<Rightarrow>
          Some (Inl (HTTPException 500 ''Internal server error''), s,
                [Error (''Error during user creation: '' @ err), ErrorTraceback])
      | Inr validated_data \<Rightarrow>
          (case get_by_email s (uc_email validated_data) of
             Some existing_user \<Rightarrow>
               Some (Inl (HTTPException 400 ''User with given email already exists.''), s,
                     [Error ''User with given email already exists.''])
           | None \<Rightarrow>
               (case nickname_loop (generate_nickname ev) s 0 of
                  None \<Rightarrow> None
                | Some new_nickname \<Rightarrow>
                    (let new_user =
                           \<lparr>user_id = uuid4 ev,
                            nickname = new_nickname,
                            email = uc_email validated_data,
                            first_name = uc_first_name validated_data,
                            hashed_password = hash_password ev (uc_password validated_data),
                            role = (case uc_role validated_data of None \<Rightarrow> ANONYMOUS | Some r \<Rightarrow> r),
                            email_verified = False,
                            is_locked = False,
                            failed_login_attempts = 0,
                            last_login_at = None,
                            verification_token = Some (generate_verification_token ev)\<rparr>;
                         s' = commit_insert s new_user
                     in (case send_verification_email ev new_user of
                           None \<Rightarrow> Some (Inr new_user, s', [])
                         | Some e \<Rightarrow>
                             Some (Inr new_user, s',
                                   [Error (''Failed to send verification email: '' @ e)]))))))"

section \<open>Concrete values\<close>

text \<open>Values for the evaluations below: a password check by equality of a tagged digest.\<close>

definition plain_vp :: "string \<Rightarrow> string \<Rightarrow> bool" where
  "plain_vp password digest = (digest = ''h:'' @ password)"

definition alice :: user where
  "alice = \<lparr>user_id = ''u1'', nickname = ''clever_fox_1'', email = ''a@x.com'',
     first_name = None, hashed_password = ''h:Str0ngP@ss'', role = AUTHENTICATED,
     email_verified = True, is_locked = False, failed_login_attempts = 0,
     last_login_at = None, verification_token = None\<rparr>"

definition carol :: user where
  "carol = \<lparr>user_id = ''u2'', nickname = ''brave_owl_2'', email = ''c@x.com'',
     first_name = None, hashed_password = ''h:Secure*1234'', role = ANONYMOUS,
     email_verified = False, is_locked = False, failed_login_attempts = 0,
     last_login_at = None, verification_token = Some ''tok-AbC''\<rparr>"

text \<open>A validation that asks for the two required fields only.\<close>

definition parse_user_create :: "(string \<rightharpoonup> string) \<Rightarrow> string + user_create" where
  "parse_user_create d =
     (case d ''email'' of
        None \<Rightarrow> Inl ''email: Field required''
      | Some e \<Rightarrow>
          (case d ''password'' of
             None \<Rightarrow> Inl ''password: Field required''
           | Some p \<Rightarrow>
               Inr \<lparr>uc_email = e, uc_password = p, uc_nickname = d ''nickname'',
                    uc_first_name = d ''first_name'', uc_role = None\<rparr>))"

text \<open>
  Two nickname generators: one on a saturated namespace, returning a taken nickname at
  every call, and one whose second candidate is free.
\<close>

definition taken_nicknames :: "nat \<Rightarrow> string" where
  "taken_nicknames n = ''clever_fox_1''"

definition fresh_nicknames :: "nat \<Rightarrow> string" where
  "fresh_nicknames n = (if n = 0 then ''clever_fox_1'' else ''brave_owl_2'')"

definition smtp_ok :: "user \<Rightarrow> string option" where
  "smtp_ok u = None"

definition smtp_down :: "user \<Rightarrow> string option" where
  "smtp_down u = Some ''Connection refused''"

definition test_env :: "(nat \<Rightarrow> string) \<Rightarrow> (user \<Rightarrow> string option) \<Rightarrow> env" where
  "test_env gen send =
     \<lparr>UserCreate = parse_user_create,
      hash_password = (\<lambda>p. ''h:'' @ p),
      generate_verification_token = ''tok-AbC'',
      generate_nickname = gen,
      uuid4 = ''u2'',
      send_verification_email = send\<rparr>"

definition carol_data :: "string \<rightharpoonup> string" where
  "carol_data = [''email'' \<mapsto> ''c@x.com'', ''password'' \<mapsto> ''Secure*1234'']"

definition alice_data :: "string \<rightharpoonup> string" where
  "alice_data = [''email'' \<mapsto> ''a@x.com'', ''password'' \<mapsto> ''Other*1234'']"

section \<open>Lemmas on the repository\<close>

lemma get_by_id_Some_id: "get_by_id s i = Some u \<Longrightarrow> user_id u = i"
  unfolding get_by_id_def by (induction s) (auto split: if_splits)

lemma get_by_email_Some_email: "get_by_email s e = Some u \<Longrightarrow> email u = e"
  unfolding get_by_email_def by (induction s) (auto split: if_splits)

lemma get_by_email_member:
  "u \<in> set s \<Longrightarrow> email u = e \<Longrightarrow> get_by_email s e \<noteq> None"
  by (auto simp: get_by_email_def find_None_iff)

text \<open>A committed update is what the next lookup returns, by primary key and by email.\<close>

lemma get_by_id_commit_update:
  "get_by_id s (user_id u) \<noteq> None \<Longrightarrow> get_by_id (commit_update s u) (user_id u) = Some u"
  unfolding get_by_id_def by (induction s) (auto simp: commit_update_def)

lemma get_by_email_commit_update:
  "get_by_email s e = Some u \<Longrightarrow> user_id u' = user_id u \<Longrightarrow> email u' = e \<Longrightarrow>
   get_by_email (commit_update s u') e = Some u'"
  unfolding get_by_email_def
  by (induction s) (auto simp: commit_update_def split: if_splits)

lemma get_by_id_verified:
  assumes "get_by_id s i = Some u"
  shows "get_by_id (commit_update s (u\<lparr>email_verified := True, verification_token := None\<rparr>)) i
           = Some (u\<lparr>email_verified := True, verification_token := None\<rparr>)"
proof -
  let ?u = "u\<lparr>email_verified := True, verification_token := None\<rparr>"
  have i: "user_id ?u = i" using assms by (simp add: get_by_id_Some_id)
  have "get_by_id s (user_id ?u) \<noteq> None" using assms i by simp
  then have "get_by_id (commit_update s ?u) (user_id ?u) = Some ?u"
    by (rule get_by_id_commit_update)
  then show ?thesis using i by simp
qed

lemmas eval_defs = login_user_def get_by_email_def get_by_id_def get_by_nickname_def
  alice_def carol_def plain_vp_def commit_update_def commit_insert_def is_account_locked_def
  Let_def settings_def count_def parse_user_create_def taken_nicknames_def
  fresh_nicknames_def smtp_ok_def smtp_down_def test_env_def carol_data_def alice_data_def

section \<open>The nickname loop\<close>

lemma nickname_loop_free: "get_by_nickname s (gen n) = None \<Longrightarrow> nickname_loop gen s n = Some (gen n)"
  by (subst nickname_loop.simps) simp

lemma nickname_loop_taken:
  "get_by_nickname s (gen n) \<noteq> None \<Longrightarrow> nickname_loop gen s n = nickname_loop gen s (Suc n)"
  by (subst nickname_loop.simps) simp

lemma nickname_loop_first_free:
  "get_by_nickname s (gen (n + k)) = None \<Longrightarrow>
   (\<forall>j<k. get_by_nickname s (gen (n + j)) \<noteq> None) \<Longrightarrow>
   nickname_loop gen s n = Some (gen (n + k))"
proof (induction k arbitrary: n)
  case 0
  then show ?case by (simp add: nickname_loop_free)
next
  case (Suc k)
  from Suc.prems(2) have t: "get_by_nickname s (gen n) \<noteq> None"
    by (metis add.right_neutral zero_less_Suc)
  have "\<forall>j<k. get_by_nickname s (gen (Suc n + j)) \<noteq> None"
    using Suc.prems(2) by (metis Suc_less_eq add_Suc_shift)
  moreover have "get_by_nickname s (gen (Suc n + k)) = None"
    using Suc.prems(1) by simp
  ultimately have "nickname_loop gen s (Suc n) = Some (gen (Suc n + k))"
    by (rule Suc.IH[rotated])
  then show ?case using t by (simp add: nickname_loop_taken)
qed

text \<open>
  Fixpoint induction: whatever the loop returns is the first candidate, from the \<open>n\<close>-th
  on, that no account has.
\<close>

lemma nickname_loop_Some:
  assumes "nickname_loop gen s n = Some nk"
  shows "\<exists>k. nk = gen (n + k) \<and> get_by_nickname s (gen (n + k)) = None
      \<and> (\<forall>j<k. get_by_nickname s (gen (n + j)) \<noteq> None)"
proof (rule nickname_loop.raw_induct
    [where P = "\<lambda>gen s n nk. \<exists>k. nk = gen (n + k) \<and> get_by_nickname s (gen (n + k)) = None
      \<and> (\<forall>j<k. get_by_nickname s (gen (n + j)) \<noteq> None)", OF _ assms])
  fix loop :: "(nat \<Rightarrow> string) \<Rightarrow> session \<Rightarrow> nat \<Rightarrow> string option" and gen s n nk
  assume IH: "\<And>g t m y. loop g t m = Some y \<Longrightarrow>
      \<exists>k. y = g (m + k) \<and> get_by_nickname t (g (m + k)) = None
        \<and> (\<forall>j<k. get_by_nickname t (g (m + j)) \<noteq> None)"
    and eq: "(if get_by_nickname s (gen n) \<noteq> None then loop gen s (Suc n) else Some (gen n)) = Some nk"
  show "\<exists>k. nk = gen (n + k) \<and> get_by_nickname s (gen (n + k)) = None
      \<and> (\<forall>j<k. get_by_nickname s (gen (n + j)) \<noteq> None)"
  proof (cases "get_by_nickname s (gen n) = None")
    case True
    with eq have "nk = gen n" by simp
    with True show ?thesis by (intro exI[of _ 0]) simp
  next
    case False
    with eq have "loop gen s (Suc n) = Some nk" by simp
    from IH[OF this] obtain k where k: "nk = gen (Suc n + k)"
      "get_by_nickname s (gen (Suc n + k)) = None"
      "\<forall>j<k. get_by_nickname s (gen (Suc n + j)) \<noteq> None" by blast
    have "\<forall>j<Suc k. get_by_nickname s (gen (n + j)) \<noteq> None"
    proof (intro allI impI)
      fix j assume "j < Suc k"
      then show "get_by_nickname s (gen (n + j)) \<noteq> None"
        using False k(3) by (cases j) auto
    qed
    with k(1,2) show ?thesis by (intro exI[of _ "Suc k"]) simp
  qed
qed

lemma nickname_loop_None:
  "(nickname_loop gen s n = None) = (\<forall>k. get_by_nickname s (gen (n + k)) \<noteq> None)"
proof
  assume a: "nickname_loop gen s n = None"
  show "\<forall>k. get_by_nickname s (gen (n + k)) \<noteq> None"
  proof (rule ccontr)
    assume "\<not> (\<forall>k. get_by_nickname s (gen (n + k)) \<noteq> None)"
    then have ex: "\<exists>k. get_by_nickname s (gen (n + k)) = None" by simp
    define k where "k = (LEAST k. get_by_nickname s (gen (n + k)) = None)"
    have "get_by_nickname s (gen (n + k)) = None"
      unfolding k_def using ex by (rule LeastI_ex)
    moreover have "\<forall>j<k. get_by_nickname s (gen (n + j)) \<noteq> None"
      unfolding k_def using not_less_Least by blast
    ultimately have "nickname_loop gen s n = Some (gen (n + k))"
      by (rule nickname_loop_first_free)
    with a show False by simp
  qed
next
  assume a: "\<forall>k. get_by_nickname s (gen (n + k)) \<noteq> None"
  show "nickname_loop gen s n = None"
  proof (cases "nickname_loop gen s n")
    case None then show ?thesis .
  next
    case (Some nk)
    from nickname_loop_Some[OF this] a show ?thesis by blast
  qed
qed

lemma taken_loop: "nickname_loop taken_nicknames [alice] 0 = None"
  by (simp add: nickname_loop_None eval_defs)

lemma fresh_loop: "nickname_loop fresh_nicknames [alice] 0 = Some ''brave_owl_2''"
proof -
  have "nickname_loop fresh_nicknames [alice] 0 = nickname_loop fresh_nicknames [alice] (Suc 0)"
    by (rule nickname_loop_taken) (simp add: eval_defs)
  also have "\<dots> = Some (fresh_nicknames (Suc 0))"
    by (rule nickname_loop_free) (simp add: eval_defs)
  finally show ?thesis by (simp add: fresh_nicknames_def)
qed

section \<open>Login: the failure counter and the lock\<close>

text \<open>
  No call of \<^verbatim>\<open>login_user\<close>, and no number of them, changes what \<^verbatim>\<open>is_account_locked\<close>
  answers for the email of the login.
\<close>

lemma login_user_is_account_locked:
  "is_account_locked (snd (login_user vp s e password)) e = is_account_locked s e"
proof (cases "get_by_email s e")
  case None
  then show ?thesis by (simp add: login_user_def)
next
  case (Some u)
  have e: "email u = e" using Some by (rule get_by_email_Some_email)
  have k: "get_by_email (commit_update s (u\<lparr>failed_login_attempts := c\<rparr>)) e
             = Some (u\<lparr>failed_login_attempts := c\<rparr>)" for c
    using Some e by (intro get_by_email_commit_update) simp_all
  show ?thesis
    using Some k by (simp add: login_user_def is_account_locked_def Let_def)
qed

lemma login_repeat_is_account_locked:
  "is_account_locked (login_repeat vp n s e password) e = is_account_locked s e"
  by (induction n arbitrary: s) (simp_all add: login_user_is_account_locked)

text \<open>
  C1. A failed login increments \<open>failed_login_attempts\<close> and commits it, but
  \<^verbatim>\<open>login_user\<close> never writes \<open>is_locked\<close>: on an account with two failures and the
  default maximum of three, a third wrong password leaves the counter at the maximum and
  the account unlocked. The loop of \<^verbatim>\<open>test_account_lock_after_failed_logins\<close>, run from a
  fresh account, ends with \<^verbatim>\<open>is_account_locked\<close> false, where the test asserts it true;
  from any session, any number of logins leaves \<^verbatim>\<open>is_account_locked\<close> as it was.
\<close>

theorem login_user_failure_never_locks:
  "login_user plain_vp [alice\<lparr>failed_login_attempts := 2\<rparr>] ''a@x.com'' ''wrong''
     = (None, [alice\<lparr>failed_login_attempts := max_login_attempts settings, is_locked := False\<rparr>])
   \<and> login_repeat plain_vp (nat (max_login_attempts settings)) [alice] ''a@x.com'' ''wrongpassword''
     = [alice\<lparr>failed_login_attempts := 3, is_locked := False\<rparr>]
   \<and> is_account_locked
        (login_repeat plain_vp (nat (max_login_attempts settings)) [alice] ''a@x.com'' ''wrongpassword'')
        ''a@x.com'' = False
   \<and> is_account_locked (login_repeat vp n s e password) e = is_account_locked s e"
proof (intro conjI)
  show "login_user plain_vp [alice\<lparr>failed_login_attempts := 2\<rparr>] ''a@x.com'' ''wrong''
     = (None, [alice\<lparr>failed_login_attempts := max_login_attempts settings, is_locked := False\<rparr>])"
    by (simp add: eval_defs)
  show "login_repeat plain_vp (nat (max_login_attempts settings)) [alice] ''a@x.com'' ''wrongpassword''
     = [alice\<lparr>failed_login_attempts := 3, is_locked := False\<rparr>]"
    by (simp add: eval_defs eval_nat_numeral)
  show "is_account_locked
        (login_repeat plain_vp (nat (max_login_attempts settings)) [alice] ''a@x.com'' ''wrongpassword'')
        ''a@x.com'' = False"
    by (simp add: eval_defs eval_nat_numeral)
  show "is_account_locked (login_repeat vp n s e password) e = is_account_locked s e"
    by (rule login_repeat_is_account_locked)
qed

text \<open>
  C2. \<^verbatim>\<open>login_user\<close> does not read \<open>is_locked\<close>: on a locked account the password is
  compared as on any other, the correct password returns the account and a wrong one
  returns \<^verbatim>\<open>None\<close> and counts a failure.
\<close>

theorem login_user_locked_account_logs_in:
  "login_user plain_vp [alice\<lparr>is_locked := True\<rparr>] ''a@x.com'' ''Str0ngP@ss''
     = (Some (alice\<lparr>is_locked := True\<rparr>), [alice\<lparr>is_locked := True\<rparr>])
   \<and> login_user plain_vp [alice\<lparr>is_locked := True\<rparr>] ''a@x.com'' ''wrong''
     = (None, [alice\<lparr>is_locked := True, failed_login_attempts := 1\<rparr>])"
  by (simp add: eval_defs)

section \<open>Login: success\<close>




section \<open>Login: what a denial shows\<close>

text \<open>
  C9. A login with an email that no account has and a login with a wrong password on
  an existing account return the same value, \<^verbatim>\<open>None\<close>, from \<^verbatim>\<open>login_user\<close> and from
  \<^verbatim>\<open>authenticate_user\<close>. The sessions they leave differ: the first is unchanged, the second
  has the account's failure counter incremented.
\<close>

theorem login_user_denials_indistinguishable:
  assumes "get_by_email s e1 = None"
    and "get_by_email s e2 = Some u" and "\<not> vp p2 (hashed_password u)"
  shows "fst (login_user vp s e1 p1) = None \<and> fst (login_user vp s e2 p2) = None
       \<and> fst (login_user vp s e1 p1) = fst (login_user vp s e2 p2)
       \<and> authenticate_user vp s e1 p1 = authenticate_user vp s e2 p2
       \<and> snd (login_user vp s e1 p1) = s
       \<and> snd (login_user vp s e2 p2)
           = commit_update s (u\<lparr>failed_login_attempts := failed_login_attempts u + 1\<rparr>)"
  using assms by (simp add: login_user_def authenticate_user_def Let_def)

theorem login_user_denials_indistinguishable_witness:
  "get_by_email [alice] ''nobody@x.com'' = None
   \<and> get_by_email [alice] ''a@x.com'' = Some alice
   \<and> \<not> plain_vp ''wrong'' (hashed_password alice)
   \<and> fst (login_user plain_vp [alice] ''nobody@x.com'' ''wrong'') = None
   \<and> fst (login_user plain_vp [alice] ''a@x.com'' ''wrong'') = None
   \<and> snd (login_user plain_vp [alice] ''nobody@x.com'' ''wrong'') = [alice]
   \<and> snd (login_user plain_vp [alice] ''a@x.com'' ''wrong'') = [alice\<lparr>failed_login_attempts := 1\<rparr>]"
proof -
  have h1: "get_by_email [alice] ''nobody@x.com'' = None"
    by (simp add: get_by_email_def alice_def)
  have h2: "get_by_email [alice] ''a@x.com'' = Some alice"
    by (simp add: get_by_email_def alice_def)
  have h3: "\<not> plain_vp ''wrong'' (hashed_password alice)"
    by (simp add: plain_vp_def alice_def)
  show ?thesis
    using h1 h2 h3 login_user_denials_indistinguishable [where s = "[alice]" and ?e1.0 = "''nobody@x.com''" and ?e2.0 = "''a@x.com''"
        and u = alice and vp = plain_vp and ?p1.0 = "''wrong''" and ?p2.0 = "''wrong''"]
    by (simp add: commit_update_def alice_def)
qed

section \<open>Email verification\<close>

text \<open>
  C5. \<^verbatim>\<open>verify_email_with_token\<close> returns true exactly when the account exists and its
  stored token equals the supplied one (equality of strings, so case matters); when it
  returns false the session is unchanged. On success with a token \<open>t\<close>, a string as the
  signature declares, the account is committed with \<open>email_verified\<close> true and no token,
  and a second call with \<open>t\<close> returns false and changes nothing.
\<close>

theorem verify_email_with_token_once:
  "fst (verify_email_with_token s i token)
      = (\<exists>u. get_by_id s i = Some u \<and> verification_token u = token)
   \<and> (\<not> fst (verify_email_with_token s i token) \<longrightarrow> snd (verify_email_with_token s i token) = s)
   \<and> (\<forall>u t. get_by_id s i = Some u \<and> verification_token u = Some t \<longrightarrow>
         verify_email_with_token s i (Some t)
           = (True, commit_update s (u\<lparr>email_verified := True, verification_token := None\<rparr>))
         \<and> get_by_id (snd (verify_email_with_token s i (Some t))) i
           = Some (u\<lparr>email_verified := True, verification_token := None\<rparr>)
         \<and> verify_email_with_token (snd (verify_email_with_token s i (Some t))) i (Some t)
           = (False, snd (verify_email_with_token s i (Some t))))"
proof (intro conjI allI impI)
  show "fst (verify_email_with_token s i token)
      = (\<exists>u. get_by_id s i = Some u \<and> verification_token u = token)"
    by (simp add: verify_email_with_token_def split: option.split)
next
  assume "\<not> fst (verify_email_with_token s i token)"
  then show "snd (verify_email_with_token s i token) = s"
    by (simp add: verify_email_with_token_def split: option.splits if_splits)
next
  fix u t
  assume a: "get_by_id s i = Some u \<and> verification_token u = Some t"
  let ?u = "u\<lparr>email_verified := True, verification_token := None\<rparr>"
  show r: "verify_email_with_token s i (Some t) = (True, commit_update s ?u)"
    using a by (simp add: verify_email_with_token_def)
  have g: "get_by_id (commit_update s ?u) i = Some ?u"
    using a by (simp add: get_by_id_verified)
  show "get_by_id (snd (verify_email_with_token s i (Some t))) i = Some ?u"
    using r g by simp
  show "verify_email_with_token (snd (verify_email_with_token s i (Some t))) i (Some t)
           = (False, snd (verify_email_with_token s i (Some t)))"
    using r g by (simp add: verify_email_with_token_def)
qed

theorem verify_email_with_token_once_witness:
  "get_by_id [alice, carol] ''u2'' = Some carol \<and> verification_token carol = Some ''tok-AbC''
   \<and> verify_email_with_token [alice, carol] ''u2'' (Some ''tok-AbC'')
       = (True, [alice, carol\<lparr>email_verified := True, verification_token := None\<rparr>])
   \<and> verify_email_with_token [alice, carol\<lparr>email_verified := True, verification_token := None\<rparr>]
         ''u2'' (Some ''tok-AbC'')
       = (False, [alice, carol\<lparr>email_verified := True, verification_token := None\<rparr>])
   \<and> \<not> fst (verify_email_with_token [alice, carol] ''u2'' (Some ''tok-abc''))
   \<and> snd (verify_email_with_token [alice, carol] ''u2'' (Some ''tok-abc'')) = [alice, carol]"
proof -
  have h: "get_by_id [alice, carol] ''u2'' = Some carol \<and> verification_token carol = Some ''tok-AbC''"
    by (simp add: eval_defs)
  have n: "\<not> fst (verify_email_with_token [alice, carol] ''u2'' (Some ''tok-abc''))"
    by (simp add: verify_email_with_token_def eval_defs)
  have u: "commit_update [alice, carol] (carol\<lparr>email_verified := True, verification_token := None\<rparr>)
          = [alice, carol\<lparr>email_verified := True, verification_token := None\<rparr>]"
    by (simp add: eval_defs)
  note k = verify_email_with_token_once [where s = "[alice, carol]" and i = "''u2''" and token = "Some ''tok-abc''"]
  from k n have f: "snd (verify_email_with_token [alice, carol] ''u2'' (Some ''tok-abc'')) = [alice, carol]"
    by blast
  from k h have a: "verify_email_with_token [alice, carol] ''u2'' (Some ''tok-AbC'')
      = (True, commit_update [alice, carol] (carol\<lparr>email_verified := True, verification_token := None\<rparr>))"
    by blast
  from k h have b: "verify_email_with_token (snd (verify_email_with_token [alice, carol] ''u2'' (Some ''tok-AbC'')))
         ''u2'' (Some ''tok-AbC'')
       = (False, snd (verify_email_with_token [alice, carol] ''u2'' (Some ''tok-AbC'')))"
    by blast
  from a u have a': "verify_email_with_token [alice, carol] ''u2'' (Some ''tok-AbC'')
      = (True, [alice, carol\<lparr>email_verified := True, verification_token := None\<rparr>])"
    by simp
  from b a' have b': "verify_email_with_token [alice, carol\<lparr>email_verified := True, verification_token := None\<rparr>]
         ''u2'' (Some ''tok-AbC'')
       = (False, [alice, carol\<lparr>email_verified := True, verification_token := None\<rparr>])"
    by simp
  show ?thesis using h n f a' b' by simp
qed

text \<open>
  C10. On an account whose stored token is \<^verbatim>\<open>None\<close>, a call with the token \<^verbatim>\<open>None\<close> returns
  true and commits \<open>email_verified\<close> as true: the comparison is between the stored and the
  supplied value, with no check that a token is pending. The call can be repeated with
  the same result.
\<close>

theorem verify_email_with_token_none_token:
  assumes "get_by_id s i = Some u" and "verification_token u = None"
  shows "verify_email_with_token s i None
           = (True, commit_update s (u\<lparr>email_verified := True, verification_token := None\<rparr>))
       \<and> get_by_id (snd (verify_email_with_token s i None)) i
           = Some (u\<lparr>email_verified := True, verification_token := None\<rparr>)
       \<and> fst (verify_email_with_token (snd (verify_email_with_token s i None)) i None)"
proof -
  let ?u = "u\<lparr>email_verified := True, verification_token := None\<rparr>"
  have r: "verify_email_with_token s i None = (True, commit_update s ?u)"
    using assms by (simp add: verify_email_with_token_def)
  have g: "get_by_id (commit_update s ?u) i = Some ?u"
    using assms(1) by (rule get_by_id_verified)
  show ?thesis using r g by (simp add: verify_email_with_token_def)
qed

theorem verify_email_with_token_none_token_witness:
  "get_by_id [alice\<lparr>email_verified := False\<rparr>] ''u1'' = Some (alice\<lparr>email_verified := False\<rparr>)
   \<and> verification_token (alice\<lparr>email_verified := False\<rparr>) = None
   \<and> verify_email_with_token [alice\<lparr>email_verified := False\<rparr>] ''u1'' None = (True, [alice])"
proof -
  have h1: "get_by_id [alice\<lparr>email_verified := False\<rparr>] ''u1'' = Some (alice\<lparr>email_verified := False\<rparr>)"
    by (simp add: eval_defs)
  have h2: "verification_token (alice\<lparr>email_verified := False\<rparr>) = None"
    by (simp add: eval_defs)
  show ?thesis using h1 h2 verify_email_with_token_none_token [OF h1 h2]
    by (simp add: eval_defs)
qed

section \<open>Role check\<close>

text \<open>
  C8. \<^verbatim>\<open>require_role\<close> raises 403 exactly when the subject's role is not in the list of
  allowed roles, and returns the subject otherwise. No role stands for another: a
  subject with the role ADMIN is refused by every list that does not contain ADMIN.
\<close>

theorem require_role_flat_membership:
  "(require_role allowed_roles cu = Inl (HTTPException 403 ''Operation not permitted''))
      = (cu_role cu \<notin> set allowed_roles)
   \<and> (require_role allowed_roles cu = Inr cu) = (cu_role cu \<in> set allowed_roles)
   \<and> (''ADMIN'' \<notin> set allowed_roles \<longrightarrow>
        require_role allowed_roles (cu\<lparr>cu_role := ''ADMIN''\<rparr>)
          = Inl (HTTPException 403 ''Operation not permitted''))"
  by (simp add: require_role_def)

theorem require_role_flat_membership_witness:
  "''ADMIN'' \<notin> set [''MANAGER'']
   \<and> require_role [''MANAGER''] \<lparr>cu_user_id = ''u1'', cu_role = ''ADMIN''\<rparr>
       = Inl (HTTPException 403 ''Operation not permitted'')
   \<and> require_role [''MANAGER''] \<lparr>cu_user_id = ''u1'', cu_role = ''MANAGER''\<rparr>
       = Inr \<lparr>cu_user_id = ''u1'', cu_role = ''MANAGER''\<rparr>"
  using require_role_flat_membership [of "[''MANAGER'']" "\<lparr>cu_user_id = ''u1'', cu_role = ''ADMIN''\<rparr>"]
        require_role_flat_membership [of "[''MANAGER'']" "\<lparr>cu_user_id = ''u1'', cu_role = ''MANAGER''\<rparr>"]
  by simp

section \<open>Registration\<close>

text \<open>
  Counterexample to C3 as stated: the nickname loop has no cap. With a generator that returns a taken nickname at every
  call, the loop, and \<^verbatim>\<open>create\<close> with it, never returns, and raises nothing.
\<close>

theorem create_saturated_nicknames_diverges:
  "nickname_loop taken_nicknames [alice] 0 = None
   \<and> create (test_env taken_nicknames smtp_ok) [alice] carol_data = None"
proof -
  have "generate_nickname (test_env taken_nicknames smtp_ok) = taken_nicknames"
    by (simp add: test_env_def)
  then show ?thesis
    using taken_loop by (simp add: create_def eval_defs)
qed

text \<open>
  C3, amended. The nickname loop of \<^verbatim>\<open>create\<close> retries on every collision, with no cap on
  the retries and no error of its own: it returns exactly the first generated candidate
  that no account has, and it does not return exactly when every candidate collides.
  For a valid input with an unused email, \<^verbatim>\<open>create\<close> fails to return in that case only.
\<close>

theorem nickname_loop_first_free_or_diverges:
  "(nickname_loop gen s n = Some nk)
      = (\<exists>k. nk = gen (n + k) \<and> get_by_nickname s (gen (n + k)) = None
             \<and> (\<forall>j<k. get_by_nickname s (gen (n + j)) \<noteq> None))
   \<and> (nickname_loop gen s n = None) = (\<forall>k. get_by_nickname s (gen (n + k)) \<noteq> None)
   \<and> (UserCreate ev d = Inr v \<longrightarrow> get_by_email s (uc_email v) = None \<longrightarrow>
        (create ev s d = None) = (\<forall>k. get_by_nickname s (generate_nickname ev k) \<noteq> None))"
proof (intro conjI impI)
  show "(nickname_loop gen s n = Some nk)
      = (\<exists>k. nk = gen (n + k) \<and> get_by_nickname s (gen (n + k)) = None
             \<and> (\<forall>j<k. get_by_nickname s (gen (n + j)) \<noteq> None))"
    using nickname_loop_Some nickname_loop_first_free by blast
  show "(nickname_loop gen s n = None) = (\<forall>k. get_by_nickname s (gen (n + k)) \<noteq> None)"
    by (rule nickname_loop_None)
  assume "UserCreate ev d = Inr v" and "get_by_email s (uc_email v) = None"
  then have "(create ev s d = None) = (nickname_loop (generate_nickname ev) s 0 = None)"
    by (simp add: create_def Let_def split: option.splits)
  then show "(create ev s d = None) = (\<forall>k. get_by_nickname s (generate_nickname ev k) \<noteq> None)"
    by (simp add: nickname_loop_None)
qed

theorem nickname_loop_first_free_or_diverges_witness:
  "UserCreate (test_env fresh_nicknames smtp_ok) carol_data
      = Inr \<lparr>uc_email = ''c@x.com'', uc_password = ''Secure*1234'', uc_nickname = None,
             uc_first_name = None, uc_role = None\<rparr>
   \<and> get_by_email [alice] ''c@x.com'' = None
   \<and> get_by_nickname [alice] (fresh_nicknames 0) \<noteq> None
   \<and> get_by_nickname [alice] (fresh_nicknames 1) = None
   \<and> nickname_loop fresh_nicknames [alice] 0 = Some ''brave_owl_2''
   \<and> create (test_env fresh_nicknames smtp_ok) [alice] carol_data \<noteq> None"
proof -
  let ?v = "\<lparr>uc_email = ''c@x.com'', uc_password = ''Secure*1234'', uc_nickname = None,
             uc_first_name = None, uc_role = None\<rparr>"
  have h1: "UserCreate (test_env fresh_nicknames smtp_ok) carol_data = Inr ?v"
    by (simp add: eval_defs)
  have h2: "get_by_email [alice] (uc_email ?v) = None"
    by (simp add: eval_defs)
  have t0: "get_by_nickname [alice] (fresh_nicknames 0) \<noteq> None"
    by (simp add: eval_defs)
  have f1: "get_by_nickname [alice] (fresh_nicknames 1) = None"
    by (simp add: eval_defs)
  note k = nickname_loop_first_free_or_diverges [where gen = fresh_nicknames and s = "[alice]" and n = 0 and nk = "''brave_owl_2''"
      and ev = "test_env fresh_nicknames smtp_ok" and d = carol_data and v = ?v]
  have "\<exists>k. ''brave_owl_2'' = fresh_nicknames (0 + k)
          \<and> get_by_nickname [alice] (fresh_nicknames (0 + k)) = None
          \<and> (\<forall>j<k. get_by_nickname [alice] (fresh_nicknames (0 + j)) \<noteq> None)"
    using t0 f1 by (intro exI[of _ 1]) (simp add: fresh_nicknames_def)
  with k have l: "nickname_loop fresh_nicknames [alice] 0 = Some ''brave_owl_2''"
    by blast
  have "\<not> (\<forall>k. get_by_nickname [alice] (generate_nickname (test_env fresh_nicknames smtp_ok) k) \<noteq> None)"
    using f1 by (auto simp: test_env_def)
  with k h1 h2 have c: "create (test_env fresh_nicknames smtp_ok) [alice] carol_data \<noteq> None"
    by blast
  show ?thesis using h1 h2 t0 f1 l c by simp
qed

text \<open>
  C6. When the input passes validation and the table holds an account with the
  validated email, \<^verbatim>\<open>create\<close> raises the 400 exception "User with given email already
  exists.", after logging it; the session is the one it was given, so no account is
  created and \<^verbatim>\<open>count\<close> is unchanged.
\<close>

theorem create_duplicate_email_rejected:
  assumes "UserCreate ev d = Inr v" and "u \<in> set s" and "email u = uc_email v"
  shows "create ev s d
           = Some (Inl (HTTPException 400 ''User with given email already exists.''), s,
                   [Error ''User with given email already exists.''])
       \<and> (\<forall>r s' lg. create ev s d = Some (r, s', lg) \<longrightarrow> s' = s \<and> count s' = count s)"
proof -
  from assms(2,3) have "get_by_email s (uc_email v) \<noteq> None"
    by (rule get_by_email_member)
  then obtain x where "get_by_email s (uc_email v) = Some x" by blast
  with assms(1) show ?thesis by (simp add: create_def)
qed

theorem create_duplicate_email_rejected_witness:
  "UserCreate (test_env fresh_nicknames smtp_ok) alice_data
      = Inr \<lparr>uc_email = ''a@x.com'', uc_password = ''Other*1234'', uc_nickname = None,
             uc_first_name = None, uc_role = None\<rparr>
   \<and> alice \<in> set [alice] \<and> email alice = ''a@x.com''
   \<and> create (test_env fresh_nicknames smtp_ok) [alice] alice_data
       = Some (Inl (HTTPException 400 ''User with given email already exists.''), [alice],
               [Error ''User with given email already exists.''])"
proof -
  let ?v = "\<lparr>uc_email = ''a@x.com'', uc_password = ''Other*1234'', uc_nickname = None,
             uc_first_name = None, uc_role = None\<rparr>"
  have h1: "UserCreate (test_env fresh_nicknames smtp_ok) alice_data = Inr ?v"
    by (simp add: eval_defs)
  have h2: "alice \<in> set [alice]" by simp
  have h3: "email alice = uc_email ?v" by (simp add: alice_def)
  show ?thesis using h1 h2 h3 create_duplicate_email_rejected [OF h1 h2 h3] by simp
qed

text \<open>
  C7. For a valid input with an unused email whose nickname loop returns, \<^verbatim>\<open>create\<close>
  returns the new account and commits it whatever \<^verbatim>\<open>send_verification_email\<close> does: the
  account returned and the session are those of the run in which the email is sent, the
  stored account has its verification token and is unverified, and an exception of the
  notifier is logged and nothing is raised.
\<close>

theorem create_survives_notifier_failure:
  assumes "UserCreate ev d = Inr v" and "get_by_email s (uc_email v) = None"
    and "nickname_loop (generate_nickname ev) s 0 = Some nk"
  shows "\<exists>new_user.
           create ev s d
             = Some (Inr new_user, s @ [new_user],
                     (case send_verification_email ev new_user of
                        None \<Rightarrow> []
                      | Some e \<Rightarrow> [Error (''Failed to send verification email: '' @ e)]))
         \<and> create (ev\<lparr>send_verification_email := smtp_ok\<rparr>) s d
             = Some (Inr new_user, s @ [new_user], [])
         \<and> email new_user = uc_email v
         \<and> nickname new_user = nk
         \<and> verification_token new_user = Some (generate_verification_token ev)
         \<and> \<not> email_verified new_user"
  using assms
  by (simp add: create_def Let_def commit_insert_def smtp_ok_def split: option.split)

theorem create_survives_notifier_failure_witness:
  "UserCreate (test_env fresh_nicknames smtp_down) carol_data
      = Inr \<lparr>uc_email = ''c@x.com'', uc_password = ''Secure*1234'', uc_nickname = None,
             uc_first_name = None, uc_role = None\<rparr>
   \<and> get_by_email [alice] ''c@x.com'' = None
   \<and> nickname_loop (generate_nickname (test_env fresh_nicknames smtp_down)) [alice] 0
       = Some ''brave_owl_2''
   \<and> create (test_env fresh_nicknames smtp_down) [alice] carol_data
       = Some (Inr carol, [alice, carol],
               [Error ''Failed to send verification email: Connection refused''])
   \<and> create (test_env fresh_nicknames smtp_ok) [alice] carol_data
       = Some (Inr carol, [alice, carol], [])
   \<and> verification_token carol = Some ''tok-AbC''"
proof -
  let ?v = "\<lparr>uc_email = ''c@x.com'', uc_password = ''Secure*1234'', uc_nickname = None,
             uc_first_name = None, uc_role = None\<rparr>"
  let ?ev = "test_env fresh_nicknames smtp_down"
  have h1: "UserCreate ?ev carol_data = Inr ?v"
    by (simp add: eval_defs)
  have h2: "get_by_email [alice] (uc_email ?v) = None"
    by (simp add: eval_defs)
  have h3: "nickname_loop (generate_nickname ?ev) [alice] 0 = Some ''brave_owl_2''"
    using fresh_loop by (simp add: test_env_def)
  have e: "?ev\<lparr>send_verification_email := smtp_ok\<rparr> = test_env fresh_nicknames smtp_ok"
    by (simp add: test_env_def)
  from create_survives_notifier_failure [OF h1 h2 h3] obtain nu where
    a: "create ?ev [alice] carol_data
          = Some (Inr nu, [alice] @ [nu],
                  (case send_verification_email ?ev nu of
                     None \<Rightarrow> []
                   | Some e \<Rightarrow> [Error (''Failed to send verification email: '' @ e)]))"
    and b: "create (?ev\<lparr>send_verification_email := smtp_ok\<rparr>) [alice] carol_data
          = Some (Inr nu, [alice] @ [nu], [])"
    by blast
  have c: "create (test_env fresh_nicknames smtp_ok) [alice] carol_data
       = Some (Inr carol, [alice, carol], [])"
    using h1 h2 h3 by (simp add: create_def eval_defs)
  from b c e have "nu = carol" by simp
  with a b e have "create ?ev [alice] carol_data
       = Some (Inr carol, [alice, carol],
               [Error ''Failed to send verification email: Connection refused''])"
    by (simp add: test_env_def smtp_down_def)
  with h1 h2 h3 c show ?thesis by (simp add: carol_def)
qed

end
